theory Spec2Isabelle
  imports Main "HOL-Library.Sublist"
begin

section \<open>The kubetest2 GCE deployer: data model\<close>

text \<open>
  The embedding follows \<^verbatim>\<open>kubetest2-gce/deployer/deployer.go\<close>. Go strings are byte
  sequences and \<^verbatim>\<open>len\<close> counts bytes, so a Go string is a \<^typ>\<open>string\<close> (a list of
  8-bit characters). Go's \<^verbatim>\<open>int\<close> is modelled by \<^typ>\<open>int\<close>: the only arithmetic in the
  file is the constant \<^verbatim>\<open>5 * 60\<close>.
\<close>

subsection \<open>\<^verbatim>\<open>types.Options\<close>\<close>

text \<open>
  \<^verbatim>\<open>types.Options\<close> is an interface of another package; the deployer only calls its
  methods \<^verbatim>\<open>RunID()\<close>, \<^verbatim>\<open>RunDir()\<close> and \<^verbatim>\<open>ShouldBuild()\<close>, so an options value is the
  record of what these three methods return.
\<close>

record Options =
  RunID :: string
  RunDir :: string
  ShouldBuild :: bool

subsection \<open>\<^verbatim>\<open>build.Options\<close> and \<^verbatim>\<open>options.BuildOptions\<close>\<close>

datatype Builder = NoopBuilder
datatype Stager = NoopStager

record build_Options =
  Builder :: Builder
  Stager :: Stager
  Strategy :: string
  TargetBuildArch :: string

record BuildOptions =
  CommonBuildOptions :: build_Options

subsection \<open>The \<^verbatim>\<open>Deployer\<close> struct\<close>

text \<open>
  A signal channel is either still open or closed; \<^verbatim>\<open>make(chan struct{})\<close> gives an open
  one. The \<^verbatim>\<open>boskos\<close> field is a pointer that is nil until a client is created, and
  \<^verbatim>\<open>doInit\<close> is a \<^verbatim>\<open>sync.Once\<close>, which only remembers whether it has run.
\<close>

datatype chan = ChanOpen | ChanClosed

datatype boskos_Client = BoskosClient string

record Deployer =
  commonOptions :: Options
  BuildOptions :: BuildOptions
  doInit :: bool
  kubeconfigPath :: string
  kubectlPath :: string
  logsDir :: string
  boskos :: "boskos_Client option"
  boskosHeartbeatClose :: chan
  instancePrefix :: string
  network :: string
  Env :: "string list"
  BoskosAcquireTimeoutSeconds :: int
  BoskosHeartbeatIntervalSeconds :: int
  RepoRoot :: string
  GCPProject :: string
  GCPZone :: string
  EnableComputeAPI :: bool
  OverwriteLogsDir :: bool
  BoskosLocation :: string
  LegacyMode :: bool
  NumNodes :: int
  EnableCacheMutationDetector :: bool
  RuntimeConfig :: string
  EnablePodSecurityPolicy :: bool
  CreateCustomNetwork :: bool
  NodeScopes :: string
  NodeServiceAccount :: string
  CloudProvider :: string
  FeatureGates :: string
  MasterSize :: string
  NodeSize :: string
  IngressGCEImage :: string

section \<open>\<^verbatim>\<open>pseudoUniqueSubstring\<close>\<close>

definition maxResourceNamePrefixLength :: nat where
  "maxResourceNamePrefixLength = 13"

text \<open>The slice \<^verbatim>\<open>uuid[:13]\<close> is only reached when the string is longer than 13 bytes.\<close>

definition pseudoUniqueSubstring :: "string \<Rightarrow> string" where
  "pseudoUniqueSubstring uuid =
     (if length uuid \<le> maxResourceNamePrefixLength then uuid
      else take maxResourceNamePrefixLength uuid)"

section \<open>\<^verbatim>\<open>New\<close>\<close>

text \<open>
  \<^verbatim>\<open>New\<close> calls four functions of other packages: \<^verbatim>\<open>filepath.Join\<close>,
  \<^verbatim>\<open>artifacts.BaseDir\<close>, \<^verbatim>\<open>gpflag.Parse\<close> and \<^verbatim>\<open>AddGoFlagSet\<close>. They are parameters of
  the model. \<^verbatim>\<open>gpflag.Parse\<close> returns a flag set or an error; on an error \<^verbatim>\<open>New\<close> calls
  \<^verbatim>\<open>klog.Fatalf\<close>, which ends the process, so \<^verbatim>\<open>New\<close> returns nothing then.
\<close>

record 'fs externals =
  filepath_Join :: "string \<Rightarrow> string \<Rightarrow> string"
  artifacts_BaseDir :: string
  gpflag_Parse :: "Deployer \<Rightarrow> string + 'fs"
  AddGoFlagSet :: "'fs \<Rightarrow> 'fs"

datatype fatal = Fatal string

text \<open>The struct literal of \<^verbatim>\<open>New\<close>; the fields it does not name have Go's zero values.\<close>

definition new_struct :: "'fs externals \<Rightarrow> Options \<Rightarrow> Deployer" where
  "new_struct ext opts =
     \<lparr> commonOptions = opts,
       BuildOptions = \<lparr> CommonBuildOptions =
         \<lparr> Builder = NoopBuilder, Stager = NoopStager,
           Strategy = ''make'', TargetBuildArch = ''linux/amd64'' \<rparr> \<rparr>,
       doInit = False,
       kubeconfigPath = filepath_Join ext (RunDir opts) ''kubetest2-kubeconfig'',
       kubectlPath = '''',
       logsDir = filepath_Join ext (artifacts_BaseDir ext) ''cluster-logs'',
       boskos = None,
       boskosHeartbeatClose = ChanOpen,
       instancePrefix = ''kt2-'' @ pseudoUniqueSubstring (RunID opts),
       network = ''kt2-'' @ pseudoUniqueSubstring (RunID opts),
       Env = [],
       BoskosAcquireTimeoutSeconds = 5 * 60,
       BoskosHeartbeatIntervalSeconds = 5 * 60,
       RepoRoot = '''',
       GCPProject = '''',
       GCPZone = '''',
       EnableComputeAPI = False,
       OverwriteLogsDir = False,
       BoskosLocation = ''http://boskos.test-pods.svc.cluster.local.'',
       LegacyMode = False,
       NumNodes = 3,
       EnableCacheMutationDetector = False,
       RuntimeConfig = '''',
       EnablePodSecurityPolicy = False,
       CreateCustomNetwork = False,
       NodeScopes = '''',
       NodeServiceAccount = '''',
       CloudProvider = '''',
       FeatureGates = '''',
       MasterSize = '''',
       NodeSize = '''',
       IngressGCEImage = '''' \<rparr>"

definition New :: "'fs externals \<Rightarrow> Options \<Rightarrow> fatal + (Deployer \<times> 'fs)" where
  "New ext opts =
     (let d = new_struct ext opts in
      case gpflag_Parse ext d of
        Inl err \<Rightarrow> Inl (Fatal (''couldn't parse flagset for Deployer struct: '' @ err))
      | Inr flagSet \<Rightarrow> Inr (d, AddGoFlagSet ext flagSet))"

section \<open>\<^verbatim>\<open>Provider\<close>, \<^verbatim>\<open>Version\<close> and \<^verbatim>\<open>Kubeconfig\<close>\<close>

text \<open>
  The methods have a pointer receiver, so each is a function from the deployer to its
  result and the deployer afterwards. What they read outside the deployer is collected in
  a \<open>world\<close>: the package variable \<^verbatim>\<open>GitTag\<close>, the result of \<^verbatim>\<open>os.Stat\<close> for every path, and
  which paths name an existing file. \<^verbatim>\<open>os.Stat\<close> returns nil, an error for which
  \<^verbatim>\<open>os.IsNotExist\<close> holds, or some other error (permission denied on a directory of the
  path, for example).
\<close>

definition Name :: string where
  "Name = ''gce''"

datatype os_error = ErrNotExist string | ErrOther string

fun os_IsNotExist :: "os_error option \<Rightarrow> bool" where
  "os_IsNotExist None = False"
| "os_IsNotExist (Some (ErrNotExist m)) = True"
| "os_IsNotExist (Some (ErrOther m)) = False"

fun Error :: "os_error \<Rightarrow> string" where
  "Error (ErrNotExist m) = m"
| "Error (ErrOther m) = m"

record world =
  GitTag :: string
  file_exists :: "string \<Rightarrow> bool"
  os_Stat :: "string \<Rightarrow> os_error option"

text \<open>An error made by \<^verbatim>\<open>fmt.Errorf\<close>, with its formatted message.\<close>

datatype error = Errorf string

definition Provider :: "Deployer \<Rightarrow> string \<times> Deployer" where
  "Provider d = (Name, d)"

definition Version :: "world \<Rightarrow> Deployer \<Rightarrow> string \<times> Deployer" where
  "Version w d = (GitTag w, d)"

definition Kubeconfig :: "world \<Rightarrow> Deployer \<Rightarrow> (string \<times> error option) \<times> Deployer" where
  "Kubeconfig w d =
     (let err = os_Stat w (kubeconfigPath d) in
      if os_IsNotExist err then
        (('''', Some (Errorf (''kubeconfig does not exist at: '' @ kubeconfigPath d))), d)
      else
        (case err of
           Some e \<Rightarrow>
             (('''', Some (Errorf (''unknown error when checking for kubeconfig at ''
                                   @ kubeconfigPath d @ '': '' @ Error e))), d)
         | None \<Rightarrow> ((kubeconfigPath d, None), d)))"

text \<open>Any sequence of calls of these methods on one deployer.\<close>

datatype deployer_call = CallProvider | CallVersion | CallKubeconfig

fun call :: "world \<Rightarrow> deployer_call \<Rightarrow> Deployer \<Rightarrow> Deployer" where
  "call w CallProvider d = snd (Provider d)"
| "call w CallVersion d = snd (Version w d)"
| "call w CallKubeconfig d = snd (Kubeconfig w d)"

fun call_all :: "world \<Rightarrow> deployer_call list \<Rightarrow> Deployer \<Rightarrow> Deployer" where
  "call_all w [] d = d"
| "call_all w (m # ms) d = call_all w ms (call w m d)"

text \<open>
  \<^verbatim>\<open>os.Stat\<close> is truthful at a path when its success means that a file is there and its
  not-exist error means that none is; any other error says nothing about the file.
\<close>

definition stat_truthful :: "world \<Rightarrow> string \<Rightarrow> bool" where
  "stat_truthful w p =
     (case os_Stat w p of
        None \<Rightarrow> file_exists w p
      | Some (ErrNotExist m) \<Rightarrow> \<not> file_exists w p
      | Some (ErrOther m) \<Rightarrow> True)"

text \<open>Resource names start with a letter of the alphabet.\<close>

definition isLetter :: "char \<Rightarrow> bool" where
  "isLetter c =
     (let n = (of_char c :: nat) in (65 \<le> n \<and> n \<le> 90) \<or> (97 \<le> n \<and> n \<le> 122))"

definition startsWithLetter :: "string \<Rightarrow> bool" where
  "startsWithLetter s = (case s of [] \<Rightarrow> False | c # cs \<Rightarrow> isLetter c)"

section \<open>\<^verbatim>\<open>Build\<close>\<close>

text \<open>
  \<^verbatim>\<open>Build\<close> reads four fields of its receiver: \<^verbatim>\<open>BuildType\<close>, \<^verbatim>\<open>KubeRoot\<close>, \<^verbatim>\<open>NodeImage\<close> and
  \<^verbatim>\<open>commonOptions\<close>. The constant \<^verbatim>\<open>kindDefaultBuiltImageName\<close> is declared in another file,
  and \<^verbatim>\<open>process.ExecJUnit\<close>, \<^verbatim>\<open>os.Environ\<close> and \<^verbatim>\<open>build.StoreCommonBinaries\<close> belong to other
  packages: the constant, the outcome of the command and the environment are parameters,
  and the two calls are recorded as effects, in the order they happen.
\<close>

record BuildDeployer =
  build_commonOptions :: Options
  BuildType :: string
  KubeRoot :: string
  NodeImage :: string

record build_externals =
  kindDefaultBuiltImageName :: string
  process_ExecJUnit :: "string \<Rightarrow> string list \<Rightarrow> string list \<Rightarrow> error option"
  os_Environ :: "string list"

datatype effect =
    ExecJUnit string "string list" "string list"
  | StoreCommonBinaries string string

definition Build_args :: "build_externals \<Rightarrow> BuildDeployer \<Rightarrow> string list" where
  "Build_args ext d =
     (let args = [''build'', ''node-image''];
          args = (if BuildType d \<noteq> '''' then args @ [''--type'', BuildType d] else args);
          args = (if KubeRoot d \<noteq> '''' then args @ [''--kube-root'', KubeRoot d] else args);
          args = (if NodeImage d \<noteq> '''' then args @ [''--image'', NodeImage d]
                  else if ShouldBuild (build_commonOptions d)
                       then args @ [''--image'', kindDefaultBuiltImageName ext]
                       else args)
      in args)"

definition Build :: "build_externals \<Rightarrow> BuildDeployer \<Rightarrow> error option \<times> effect list" where
  "Build ext d =
     (let args = Build_args ext d in
      case process_ExecJUnit ext ''kind'' args (os_Environ ext) of
        Some err \<Rightarrow> (Some err, [ExecJUnit ''kind'' args (os_Environ ext)])
      | None \<Rightarrow>
          (None, [ExecJUnit ''kind'' args (os_Environ ext),
                  StoreCommonBinaries (KubeRoot d) (RunDir (build_commonOptions d))]))"

text \<open>The arguments that come before any \<^verbatim>\<open>--image\<close> flag.\<close>

definition leading_args :: "BuildDeployer \<Rightarrow> string list" where
  "leading_args d =
     [''build'', ''node-image'']
     @ (if BuildType d \<noteq> '''' then [''--type'', BuildType d] else [])
     @ (if KubeRoot d \<noteq> '''' then [''--kube-root'', KubeRoot d] else [])"

section \<open>The leased-resource manager\<close>

text \<open>
  The deployer declares the fields of the lease protocol (\<^verbatim>\<open>boskos\<close>,
  \<^verbatim>\<open>boskosHeartbeatClose\<close>, \<^verbatim>\<open>GCPProject\<close> and the two Boskos intervals), but the functions
  that acquire a project, send heartbeats and release the project are in other files of
  the repository. This section models them from sections 3 to 5 of the specification.
  Every call to the pool service, and every start and stop of the heartbeat loop, is
  appended to a log, oldest first.
\<close>

text \<open>Modelled from the spec: the Lease of the data model (the lease type itself is
  declared by the Boskos client): pool name, project identifier, owner token, expiry.\<close>

record Lease =
  lease_pool :: string
  lease_project :: string
  lease_owner :: string
  lease_expiry :: nat

text \<open>Modelled from the spec: the results of the three LeaseClient calls of section 4.1,
  which the Boskos client would return.\<close>

datatype acquire_error = TimeoutError | PoolError
datatype heartbeat_result = HeartbeatOk | LeaseLostError
datatype release_result = ReleaseOk | ReleaseWarning

text \<open>Modelled from the spec: the remote pool service of section 6, as the answers it
  gives. Acquire gets the pool kind and the timeout in seconds; the answer to a heartbeat
  may depend on how many were sent before.\<close>

record pool_service =
  pool_Acquire :: "string \<Rightarrow> int \<Rightarrow> acquire_error + Lease"
  pool_Heartbeat :: "Lease \<Rightarrow> nat \<Rightarrow> heartbeat_result"
  pool_Release :: "Lease \<Rightarrow> release_result"

text \<open>Modelled from the spec: what an observer of one run sees of the lease protocol,
  namely the calls to the pool service with their results, and the heartbeat loop of
  section 4.2 starting and having fully exited.\<close>

datatype pool_event =
    EvAcquire int "acquire_error + Lease"
  | EvLoopStart
  | EvHeartbeat Lease heartbeat_result
  | EvLoopStop
  | EvRelease Lease release_result

text \<open>Modelled from the spec: the state owned by the ResourceManager of section 4.3:
  its configuration, the recorded Lease, the resolved project, whether the heartbeat loop
  is running, whether a lease loss was reported, and the log.\<close>

record ResourceManager =
  rm_poolKind :: string
  rm_explicitProject :: string
  rm_acquireTimeout :: int
  rm_heartbeatInterval :: int
  rm_lease :: "Lease option"
  rm_resolvedProject :: "string option"
  rm_heartbeatRunning :: bool
  rm_leaseLost :: bool
  rm_log :: "pool_event list"

text \<open>Modelled from the spec: the configuration surface of section 6, read from the
  deployer's fields; initially there is no lease, no resolved project and no loop.\<close>

definition rm_init :: "string \<Rightarrow> Deployer \<Rightarrow> ResourceManager" where
  "rm_init kind d =
     \<lparr> rm_poolKind = kind,
       rm_explicitProject = GCPProject d,
       rm_acquireTimeout = BoskosAcquireTimeoutSeconds d,
       rm_heartbeatInterval = BoskosHeartbeatIntervalSeconds d,
       rm_lease = None,
       rm_resolvedProject = None,
       rm_heartbeatRunning = False,
       rm_leaseLost = False,
       rm_log = [] \<rparr>"

text \<open>Modelled from the spec: steps 1 and 2 of section 4.3, asked for only while no
  project is resolved (section 4.4, Up). An explicit project skips the pool; otherwise
  Acquire is called with the configured timeout, and on success the lease is recorded, the
  project resolved and, for a nonzero interval, the heartbeat loop started. A failed
  Acquire is returned to the caller.\<close>

definition rm_resolve ::
  "pool_service \<Rightarrow> ResourceManager \<Rightarrow> acquire_error option \<times> ResourceManager" where
  "rm_resolve pool s =
     (if rm_resolvedProject s \<noteq> None then (None, s)
      else if rm_explicitProject s \<noteq> '''' then
        (None, s\<lparr>rm_resolvedProject := Some (rm_explicitProject s)\<rparr>)
      else
        (case pool_Acquire pool (rm_poolKind s) (rm_acquireTimeout s) of
           Inl e \<Rightarrow>
             (Some e, s\<lparr>rm_log := rm_log s @ [EvAcquire (rm_acquireTimeout s) (Inl e)]\<rparr>)
         | Inr l \<Rightarrow>
             (let s1 = s\<lparr>rm_log := rm_log s @ [EvAcquire (rm_acquireTimeout s) (Inr l)],
                         rm_lease := Some l,
                         rm_resolvedProject := Some (lease_project l)\<rparr>
              in (None,
                  if rm_heartbeatInterval s \<noteq> 0
                  then s1\<lparr>rm_heartbeatRunning := True, rm_log := rm_log s1 @ [EvLoopStart]\<rparr>
                  else s1))))"

text \<open>Modelled from the spec: the heartbeats already sent, which number the next one.\<close>

fun is_heartbeat :: "pool_event \<Rightarrow> bool" where
  "is_heartbeat (EvHeartbeat l r) = True"
| "is_heartbeat e = False"

text \<open>Modelled from the spec: one tick of the HeartbeatLoop of section 4.2. The timer
  may fire at any moment of the run, but only a running loop sends a heartbeat; a lost
  lease is reported to the manager and the loop goes on until it is stopped.\<close>

definition rm_tick :: "pool_service \<Rightarrow> ResourceManager \<Rightarrow> ResourceManager" where
  "rm_tick pool s =
     (if rm_heartbeatRunning s then
        (case rm_lease s of
           None \<Rightarrow> s
         | Some l \<Rightarrow>
             (let r = pool_Heartbeat pool l (length (filter is_heartbeat (rm_log s)))
              in s\<lparr>rm_log := rm_log s @ [EvHeartbeat l r],
                   rm_leaseLost := (rm_leaseLost s \<or> r = LeaseLostError)\<rparr>))
      else s)"

text \<open>Modelled from the spec: the first half of Teardown (section 4.3, step 3): if a
  HeartbeatLoop is running, stop it and wait for its exit.\<close>

definition rm_stop_heartbeat :: "ResourceManager \<Rightarrow> ResourceManager" where
  "rm_stop_heartbeat s =
     (if rm_heartbeatRunning s
      then s\<lparr>rm_heartbeatRunning := False, rm_log := rm_log s @ [EvLoopStop]\<rparr>
      else s)"

text \<open>Modelled from the spec: the second half of Teardown: call Release if a Lease is
  recorded. The release is best effort (section 4.1), so the lease is no longer recorded
  afterwards whatever the pool answers.\<close>

definition rm_release :: "pool_service \<Rightarrow> ResourceManager \<Rightarrow> ResourceManager" where
  "rm_release pool s =
     (case rm_lease s of
        None \<Rightarrow> s
      | Some l \<Rightarrow> s\<lparr>rm_lease := None, rm_log := rm_log s @ [EvRelease l (pool_Release pool l)]\<rparr>)"

text \<open>Modelled from the spec: Teardown of section 4.3, step 3: stop the loop and wait,
  then release.\<close>

definition rm_teardown :: "pool_service \<Rightarrow> ResourceManager \<Rightarrow> ResourceManager" where
  "rm_teardown pool s = rm_release pool (rm_stop_heartbeat s)"

text \<open>Modelled from the spec: a run is any sequence of requests for a project, timer
  ticks and teardowns (section 5: one background task beside the sequential lifecycle).\<close>

datatype rm_action = DoResolve | DoTick | DoTeardown

fun rm_step :: "pool_service \<Rightarrow> rm_action \<Rightarrow> ResourceManager \<Rightarrow> ResourceManager" where
  "rm_step pool DoResolve s = snd (rm_resolve pool s)"
| "rm_step pool DoTick s = rm_tick pool s"
| "rm_step pool DoTeardown s = rm_teardown pool s"

fun rm_run :: "pool_service \<Rightarrow> rm_action list \<Rightarrow> ResourceManager \<Rightarrow> ResourceManager" where
  "rm_run pool [] s = s"
| "rm_run pool (a # as) s = rm_run pool as (rm_step pool a s)"

text \<open>The Release calls of a log.\<close>

fun is_release :: "pool_event \<Rightarrow> bool" where
  "is_release (EvRelease l r) = True"
| "is_release e = False"

text \<open>
  The order in which the events of one lease may follow each other: Acquire can fail any
  number of times before it succeeds; the loop starts only while the lease is held and
  not yet released; heartbeats are sent only by a running loop, for the lease that was
  acquired; Release comes only when no loop is running; and nothing follows Release. A
  log is in order when the observer accepts all of it, starting without a lease.
\<close>

datatype phase = NoLease | HeldIdle Lease | HeldBeating Lease | Released

fun observe :: "phase \<Rightarrow> pool_event \<Rightarrow> phase option" where
  "observe NoLease (EvAcquire t (Inl e)) = Some NoLease"
| "observe NoLease (EvAcquire t (Inr l)) = Some (HeldIdle l)"
| "observe (HeldIdle l) EvLoopStart = Some (HeldBeating l)"
| "observe (HeldIdle l) (EvRelease l' r) = (if l' = l then Some Released else None)"
| "observe (HeldBeating l) (EvHeartbeat l' r) = (if l' = l then Some (HeldBeating l) else None)"
| "observe (HeldBeating l) EvLoopStop = Some (HeldIdle l)"
| "observe p e = None"

fun observe_all :: "phase \<Rightarrow> pool_event list \<Rightarrow> phase option" where
  "observe_all p [] = Some p"
| "observe_all p (e # es) =
     (case observe p e of None \<Rightarrow> None | Some q \<Rightarrow> observe_all q es)"

text \<open>The manager's state agrees with the phase its log has reached.\<close>

fun agrees :: "ResourceManager \<Rightarrow> phase \<Rightarrow> bool" where
  "agrees s NoLease = (rm_lease s = None \<and> \<not> rm_heartbeatRunning s)"
| "agrees s (HeldIdle l) =
     (rm_lease s = Some l \<and> \<not> rm_heartbeatRunning s \<and> rm_resolvedProject s \<noteq> None)"
| "agrees s (HeldBeating l) =
     (rm_lease s = Some l \<and> rm_heartbeatRunning s \<and> rm_resolvedProject s \<noteq> None)"
| "agrees s Released =
     (rm_lease s = None \<and> \<not> rm_heartbeatRunning s \<and> rm_resolvedProject s \<noteq> None)"

definition in_order :: "ResourceManager \<Rightarrow> bool" where
  "in_order s =
     (case observe_all NoLease (rm_log s) of None \<Rightarrow> False | Some p \<Rightarrow> agrees s p)"

text \<open>Whether a log holds an Acquire that succeeded.\<close>

fun is_acquired :: "pool_event \<Rightarrow> bool" where
  "is_acquired (EvAcquire t (Inr l)) = True"
| "is_acquired e = False"


text \<open>With an explicit project the manager never leaves the states without a log.\<close>

definition explicit_state :: "string \<Rightarrow> ResourceManager \<Rightarrow> bool" where
  "explicit_state p s =
     (p \<noteq> '''' \<and> rm_explicitProject s = p \<and> rm_log s = [] \<and> rm_lease s = None
      \<and> \<not> rm_heartbeatRunning s
      \<and> (rm_resolvedProject s = None \<or> rm_resolvedProject s = Some p))"

text \<open>Concrete collaborators and options, used to run the model.\<close>

definition ext0 :: "unit externals" where
  "ext0 = \<lparr> filepath_Join = (\<lambda>a b. a @ ''/'' @ b),
            artifacts_BaseDir = ''_artifacts'',
            gpflag_Parse = (\<lambda>d. Inr ()),
            AddGoFlagSet = (\<lambda>fs. fs) \<rparr>"

definition opts0 :: Options where
  "opts0 = \<lparr> RunID = ''09a2565a-7ac6-11eb-a603-2218f636630c'',
             RunDir = ''/tmp/run'', ShouldBuild = True \<rparr>"

definition world_ok :: world where
  "world_ok = \<lparr> GitTag = ''v0.1'', file_exists = (\<lambda>p. p = ''/tmp/run/kubetest2-kubeconfig''),
                os_Stat = (\<lambda>p. if p = ''/tmp/run/kubetest2-kubeconfig'' then None
                                else Some (ErrNotExist (''stat '' @ p @ '': no such file or directory''))) \<rparr>"

text \<open>The file is there, but a directory above it cannot be searched.\<close>

definition world_denied :: world where
  "world_denied = \<lparr> GitTag = ''v0.1'', file_exists = (\<lambda>p. p = ''/tmp/run/kubetest2-kubeconfig''),
                    os_Stat = (\<lambda>p. Some (ErrOther (''stat '' @ p @ '': permission denied''))) \<rparr>"

definition bext0 :: build_externals where
  "bext0 = \<lparr> kindDefaultBuiltImageName = ''kindest/node:latest'',
             process_ExecJUnit = (\<lambda>cmd args env.
                if ''--image'' \<in> set args then None else Some (Errorf ''exit status 1'')),
             os_Environ = [''HOME=/root''] \<rparr>"

definition bd0 :: BuildDeployer where
  "bd0 = \<lparr> build_commonOptions = opts0, BuildType = ''docker'', KubeRoot = '''',
           NodeImage = '''' \<rparr>"

definition lease0 :: Lease where
  "lease0 = \<lparr> lease_pool = ''gce-project'', lease_project = ''k8s-boskos-07'',
              lease_owner = ''kubetest2'', lease_expiry = 600 \<rparr>"

definition pool0 :: pool_service where
  "pool0 = \<lparr> pool_Acquire = (\<lambda>kind t. if 0 < t then Inr lease0 else Inl TimeoutError),
             pool_Heartbeat = (\<lambda>l n. if n < 2 then HeartbeatOk else LeaseLostError),
             pool_Release = (\<lambda>l. ReleaseOk) \<rparr>"

definition d_pool :: Deployer where
  "d_pool = new_struct ext0 opts0"

definition d_explicit :: Deployer where
  "d_explicit = (new_struct ext0 opts0)\<lparr>GCPProject := ''my-proj''\<rparr>"

section \<open>Properties of \<^verbatim>\<open>pseudoUniqueSubstring\<close>\<close>

lemma pseudoUniqueSubstring_take:
  "pseudoUniqueSubstring s = take 13 s"
  by (simp add: pseudoUniqueSubstring_def maxResourceNamePrefixLength_def)

lemma pseudoUniqueSubstring_length:
  "length (pseudoUniqueSubstring s) \<le> 13"
  by (simp add: pseudoUniqueSubstring_take)

text \<open>
  Claim C8. For every string \<open>s\<close>, \<open>pseudoUniqueSubstring s\<close> is a prefix of \<open>s\<close> whose
  length is the smaller of \<open>length s\<close> and 13; hence applying the function twice gives
  the same string as applying it once.
\<close>

theorem pseudoUniqueSubstring_prefix_idem:
  "prefix (pseudoUniqueSubstring s) s
   \<and> length (pseudoUniqueSubstring s) = min (length s) 13
   \<and> pseudoUniqueSubstring (pseudoUniqueSubstring s) = pseudoUniqueSubstring s"
  by (simp add: pseudoUniqueSubstring_take take_is_prefix)

section \<open>Properties of \<^verbatim>\<open>New\<close>\<close>

lemma New_Inr: "New ext opts = Inr (d, fs) \<Longrightarrow> d = new_struct ext opts"
  by (auto simp: New_def Let_def split: sum.splits)

lemma New_ext0: "New ext0 o1 = Inr (new_struct ext0 o1, ())"
  by (simp add: New_def ext0_def)

lemma instancePrefix_new:
  "instancePrefix (new_struct ext opts) = ''kt2-'' @ take 13 (RunID opts)"
  by (simp add: new_struct_def pseudoUniqueSubstring_take)

lemma network_new:
  "network (new_struct ext opts) = ''kt2-'' @ take 13 (RunID opts)"
  by (simp add: new_struct_def pseudoUniqueSubstring_take)

text \<open>
  Claim C2. Whatever the options, the deployer that \<open>New\<close> returns has
  \<open>BoskosAcquireTimeoutSeconds\<close> and \<open>BoskosHeartbeatIntervalSeconds\<close> both equal to 300.
\<close>

theorem New_boskos_defaults:
  assumes "New ext opts = Inr (d, fs)"
  shows "BoskosAcquireTimeoutSeconds d = 300 \<and> BoskosHeartbeatIntervalSeconds d = 300"
proof -
  have "d = new_struct ext opts"
    using assms by (rule New_Inr)
  then show ?thesis
    by (simp add: new_struct_def)
qed

theorem New_boskos_defaults_witness:
  "New ext0 opts0 = Inr (new_struct ext0 opts0, ())
   \<and> BoskosAcquireTimeoutSeconds (new_struct ext0 opts0) = 300
   \<and> BoskosHeartbeatIntervalSeconds (new_struct ext0 opts0) = 300"
proof -
  have h: "New ext0 opts0 = Inr (new_struct ext0 opts0, ())"
    by (rule New_ext0)
  from New_boskos_defaults [OF h] h show ?thesis
    by simp
qed

text \<open>
  Claim C3. For every run identifier, the instance prefix and the network name of the
  deployer that \<open>New\<close> returns start with a letter and are at most 4 + 13 = 17 characters
  long.
\<close>

theorem New_names_wellformed:
  assumes "New ext opts = Inr (d, fs)"
  shows "startsWithLetter (instancePrefix d) \<and> length (instancePrefix d) \<le> 4 + 13
       \<and> startsWithLetter (network d) \<and> length (network d) \<le> 4 + 13"
proof -
  have d: "d = new_struct ext opts"
    using assms by (rule New_Inr)
  have k: "startsWithLetter (''kt2-'' @ s)" for s
    by (simp add: startsWithLetter_def isLetter_def)
  show ?thesis
    unfolding d instancePrefix_new network_new using k by simp
qed

theorem New_names_wellformed_witness:
  "New ext0 opts0 = Inr (new_struct ext0 opts0, ())
   \<and> instancePrefix (new_struct ext0 opts0) = ''kt2-09a2565a-7ac6''
   \<and> startsWithLetter (instancePrefix (new_struct ext0 opts0))
   \<and> length (instancePrefix (new_struct ext0 opts0)) \<le> 4 + 13
   \<and> startsWithLetter (network (new_struct ext0 opts0))
   \<and> length (network (new_struct ext0 opts0)) \<le> 4 + 13"
proof -
  have h: "New ext0 opts0 = Inr (new_struct ext0 opts0, ())"
    by (rule New_ext0)
  have n: "instancePrefix (new_struct ext0 opts0) = ''kt2-09a2565a-7ac6''"
    by (simp add: instancePrefix_new opts0_def)
  from New_names_wellformed [OF h] h n show ?thesis
    by simp
qed

text \<open>
  Claim C4. Two calls of \<open>New\<close> whose options carry the same run identifier return
  deployers with the same instance prefix and the same network name, whatever else
  differs between the calls.
\<close>

theorem New_names_deterministic:
  assumes "RunID o1 = RunID o2"
    and "New e1 o1 = Inr (d1, f1)"
    and "New e2 o2 = Inr (d2, f2)"
  shows "instancePrefix d1 = instancePrefix d2 \<and> network d1 = network d2"
proof -
  have "d1 = new_struct e1 o1" and "d2 = new_struct e2 o2"
    using assms(2,3) by (auto dest: New_Inr)
  then show ?thesis
    using assms(1) by (simp add: instancePrefix_new network_new)
qed

theorem New_names_deterministic_witness:
  "RunID opts0 = RunID (opts0\<lparr>RunDir := ''/elsewhere'', ShouldBuild := False\<rparr>)
   \<and> new_struct ext0 opts0 \<noteq> new_struct ext0 (opts0\<lparr>RunDir := ''/elsewhere'', ShouldBuild := False\<rparr>)
   \<and> instancePrefix (new_struct ext0 opts0)
       = instancePrefix (new_struct ext0 (opts0\<lparr>RunDir := ''/elsewhere'', ShouldBuild := False\<rparr>))
   \<and> network (new_struct ext0 opts0)
       = network (new_struct ext0 (opts0\<lparr>RunDir := ''/elsewhere'', ShouldBuild := False\<rparr>))"
proof -
  let ?o = "opts0\<lparr>RunDir := ''/elsewhere'', ShouldBuild := False\<rparr>"
  have r: "RunID opts0 = RunID ?o"
    by simp
  have ne: "commonOptions (new_struct ext0 opts0) \<noteq> commonOptions (new_struct ext0 ?o)"
    by (simp add: new_struct_def opts0_def)
  then have ne': "new_struct ext0 opts0 \<noteq> new_struct ext0 ?o"
    by auto
  from New_names_deterministic [OF r New_ext0 New_ext0] r ne' show ?thesis
    by simp
qed

section \<open>Properties of the methods\<close>

lemma call_same: "call w m d = d"
  by (cases m) (simp_all add: Provider_def Version_def Kubeconfig_def Let_def split: option.splits)

lemma call_all_same: "call_all w ms d = d"
  by (induction ms arbitrary: d) (simp_all add: call_same)

text \<open>
  Claim C9. Whatever the options, the deployer that \<open>New\<close> returns has its instance
  prefix equal to its network name, and the equality still holds after any sequence of
  calls of \<open>Provider\<close>, \<open>Version\<close> and \<open>Kubeconfig\<close>, none of which writes a field.
\<close>

theorem New_instancePrefix_eq_network:
  assumes "New ext opts = Inr (d, fs)"
  shows "instancePrefix d = network d
       \<and> instancePrefix (call_all w ms d) = network (call_all w ms d)"
proof -
  have "d = new_struct ext opts"
    using assms by (rule New_Inr)
  then have "instancePrefix d = network d"
    by (simp add: instancePrefix_new network_new)
  then show ?thesis
    by (simp add: call_all_same)
qed

theorem New_instancePrefix_eq_network_witness:
  "New ext0 opts0 = Inr (new_struct ext0 opts0, ())
   \<and> instancePrefix (new_struct ext0 opts0) = network (new_struct ext0 opts0)
   \<and> instancePrefix (call_all world_ok [CallKubeconfig, CallVersion, CallProvider] (new_struct ext0 opts0))
       = network (call_all world_ok [CallKubeconfig, CallVersion, CallProvider] (new_struct ext0 opts0))"
proof -
  have h: "New ext0 opts0 = Inr (new_struct ext0 opts0, ())"
    by (rule New_ext0)
  from New_instancePrefix_eq_network [OF h, of world_ok "[CallKubeconfig, CallVersion, CallProvider]"] h
  show ?thesis
    by simp
qed

lemma Kubeconfig_ok:
  "os_Stat w (kubeconfigPath d) = None \<Longrightarrow> Kubeconfig w d = ((kubeconfigPath d, None), d)"
  by (simp add: Kubeconfig_def)

lemma Kubeconfig_not_exist:
  "os_Stat w (kubeconfigPath d) = Some (ErrNotExist m) \<Longrightarrow>
   Kubeconfig w d =
     (('''', Some (Errorf (''kubeconfig does not exist at: '' @ kubeconfigPath d))), d)"
  by (simp add: Kubeconfig_def)

lemma Kubeconfig_other:
  "os_Stat w (kubeconfigPath d) = Some (ErrOther m) \<Longrightarrow>
   Kubeconfig w d =
     (('''', Some (Errorf (''unknown error when checking for kubeconfig at ''
                           @ kubeconfigPath d @ '': '' @ m))), d)"
  by (simp add: Kubeconfig_def)

lemma Kubeconfig_unchanged: "snd (Kubeconfig w d) = d"
  by (simp add: Kubeconfig_def Let_def split: option.splits)

lemma Kubeconfig_failed:
  assumes "os_Stat w (kubeconfigPath d) \<noteq> None"
  shows "\<exists>e. fst (Kubeconfig w d) = ('''', Some e)"
proof -
  from assms obtain x where x: "os_Stat w (kubeconfigPath d) = Some x"
    by auto
  show ?thesis
  proof (cases x)
    case (ErrNotExist m)
    with x show ?thesis by (simp add: Kubeconfig_not_exist)
  next
    case (ErrOther m)
    with x show ?thesis by (simp add: Kubeconfig_other)
  qed
qed

text \<open>
  Claim C10, as stated, fails: \<open>Kubeconfig\<close> does not return the path whenever a file
  exists there. In \<open>world_denied\<close> the file exists and \<^verbatim>\<open>os.Stat\<close> fails with an error
  other than not-exist; the method then returns the empty string and the
  unknown-error error.
\<close>

theorem Kubeconfig_exists_counterexample:
  "stat_truthful world_denied (kubeconfigPath (new_struct ext0 opts0))
   \<and> file_exists world_denied (kubeconfigPath (new_struct ext0 opts0))
   \<and> fst (Kubeconfig world_denied (new_struct ext0 opts0))
       = ('''', Some (Errorf (''unknown error when checking for kubeconfig at ''
            @ ''/tmp/run/kubetest2-kubeconfig'' @ '': ''
            @ ''stat /tmp/run/kubetest2-kubeconfig: permission denied'')))
   \<and> fst (Kubeconfig world_denied (new_struct ext0 opts0))
       \<noteq> (kubeconfigPath (new_struct ext0 opts0), None)"
proof -
  have p: "kubeconfigPath (new_struct ext0 opts0) = ''/tmp/run/kubetest2-kubeconfig''"
    by (simp add: new_struct_def ext0_def opts0_def)
  have s: "os_Stat world_denied (kubeconfigPath (new_struct ext0 opts0))
             = Some (ErrOther ''stat /tmp/run/kubetest2-kubeconfig: permission denied'')"
    by (simp add: p world_denied_def)
  have t: "stat_truthful world_denied (kubeconfigPath (new_struct ext0 opts0))"
    by (simp add: stat_truthful_def s)
  have f: "file_exists world_denied (kubeconfigPath (new_struct ext0 opts0))"
    by (simp add: p world_denied_def)
  show ?thesis
    using t f by (simp add: Kubeconfig_other [OF s] p)
qed

text \<open>
  Claim C10, amended. \<open>Kubeconfig\<close> returns the configured path with no error if and
  only if \<^verbatim>\<open>os.Stat\<close> succeeds on that path, and then a file exists there; whenever
  \<^verbatim>\<open>os.Stat\<close> fails, in particular whenever no file exists at the path, it returns the
  empty string together with an error; the deployer is left unchanged in every case.
\<close>

theorem Kubeconfig_result:
  assumes "stat_truthful w (kubeconfigPath d)"
  shows "(fst (Kubeconfig w d) = (kubeconfigPath d, None)
            \<longleftrightarrow> os_Stat w (kubeconfigPath d) = None)
       \<and> (fst (Kubeconfig w d) = (kubeconfigPath d, None)
            \<longrightarrow> file_exists w (kubeconfigPath d))
       \<and> (os_Stat w (kubeconfigPath d) \<noteq> None
            \<longrightarrow> (\<exists>e. fst (Kubeconfig w d) = ('''', Some e)))
       \<and> (\<not> file_exists w (kubeconfigPath d)
            \<longrightarrow> (\<exists>e. fst (Kubeconfig w d) = ('''', Some e)))
       \<and> snd (Kubeconfig w d) = d"
proof -
  have a: "fst (Kubeconfig w d) = (kubeconfigPath d, None)
            \<longleftrightarrow> os_Stat w (kubeconfigPath d) = None"
  proof
    assume r: "fst (Kubeconfig w d) = (kubeconfigPath d, None)"
    show "os_Stat w (kubeconfigPath d) = None"
    proof (rule ccontr)
      assume "os_Stat w (kubeconfigPath d) \<noteq> None"
      then obtain e where "fst (Kubeconfig w d) = ('''', Some e)"
        using Kubeconfig_failed by blast
      with r show False by simp
    qed
  next
    assume "os_Stat w (kubeconfigPath d) = None"
    then show "fst (Kubeconfig w d) = (kubeconfigPath d, None)"
      by (simp add: Kubeconfig_ok)
  qed
  have b: "os_Stat w (kubeconfigPath d) = None \<Longrightarrow> file_exists w (kubeconfigPath d)"
    using assms by (simp add: stat_truthful_def)
  have c: "os_Stat w (kubeconfigPath d) \<noteq> None
            \<longrightarrow> (\<exists>e. fst (Kubeconfig w d) = ('''', Some e))"
    using Kubeconfig_failed by blast
  have e: "snd (Kubeconfig w d) = d"
    by (rule Kubeconfig_unchanged)
  from a b c e show ?thesis
    by blast
qed

theorem Kubeconfig_result_witness:
  "stat_truthful world_ok (kubeconfigPath (new_struct ext0 opts0))
   \<and> os_Stat world_ok (kubeconfigPath (new_struct ext0 opts0)) = None
   \<and> file_exists world_ok (kubeconfigPath (new_struct ext0 opts0))
   \<and> Kubeconfig world_ok (new_struct ext0 opts0)
       = ((''/tmp/run/kubetest2-kubeconfig'', None), new_struct ext0 opts0)
   \<and> stat_truthful world_ok (kubeconfigPath (new_struct ext0 (opts0\<lparr>RunDir := ''/none''\<rparr>)))
   \<and> \<not> file_exists world_ok (kubeconfigPath (new_struct ext0 (opts0\<lparr>RunDir := ''/none''\<rparr>)))
   \<and> (\<exists>e. fst (Kubeconfig world_ok (new_struct ext0 (opts0\<lparr>RunDir := ''/none''\<rparr>))) = ('''', Some e))"
proof -
  let ?d = "new_struct ext0 opts0"
  let ?d' = "new_struct ext0 (opts0\<lparr>RunDir := ''/none''\<rparr>)"
  have p: "kubeconfigPath ?d = ''/tmp/run/kubetest2-kubeconfig''"
    by (simp add: new_struct_def ext0_def opts0_def)
  have p': "kubeconfigPath ?d' = ''/none/kubetest2-kubeconfig''"
    by (simp add: new_struct_def ext0_def opts0_def)
  have s: "os_Stat world_ok (kubeconfigPath ?d) = None"
    by (simp add: p world_ok_def)
  have t: "stat_truthful world_ok (kubeconfigPath ?d)"
    by (simp add: stat_truthful_def p world_ok_def)
  have t': "stat_truthful world_ok (kubeconfigPath ?d')"
    by (simp add: stat_truthful_def p' world_ok_def)
  have n': "\<not> file_exists world_ok (kubeconfigPath ?d')"
    by (simp add: p' world_ok_def)
  have k: "Kubeconfig world_ok ?d = ((kubeconfigPath ?d, None), ?d)"
    using Kubeconfig_result [OF t] s by (simp add: prod_eq_iff)
  have k': "\<exists>e. fst (Kubeconfig world_ok ?d') = ('''', Some e)"
    using Kubeconfig_result [OF t'] n' by blast
  from s t t' n' k k' show ?thesis
    using Kubeconfig_result [OF t] by (simp add: p)
qed

section \<open>Properties of \<^verbatim>\<open>Build\<close>\<close>

lemma Build_args_explicit:
  "NodeImage d \<noteq> '''' \<Longrightarrow> Build_args ext d = leading_args d @ [''--image'', NodeImage d]"
  by (simp add: Build_args_def leading_args_def Let_def)

lemma Build_args_default:
  "NodeImage d = '''' \<Longrightarrow> ShouldBuild (build_commonOptions d) \<Longrightarrow>
   Build_args ext d = leading_args d @ [''--image'', kindDefaultBuiltImageName ext]"
  by (simp add: Build_args_def leading_args_def Let_def)

lemma Build_args_none:
  "NodeImage d = '''' \<Longrightarrow> \<not> ShouldBuild (build_commonOptions d) \<Longrightarrow>
   Build_args ext d = leading_args d"
  by (simp add: Build_args_def leading_args_def Let_def)

lemma Build_error:
  "fst (Build ext d) = process_ExecJUnit ext ''kind'' (Build_args ext d) (os_Environ ext)"
  by (simp add: Build_def Let_def split: option.splits)

lemma Build_effects:
  "snd (Build ext d) =
     ExecJUnit ''kind'' (Build_args ext d) (os_Environ ext)
     # (if process_ExecJUnit ext ''kind'' (Build_args ext d) (os_Environ ext) = None
        then [StoreCommonBinaries (KubeRoot d) (RunDir (build_commonOptions d))] else [])"
  by (simp add: Build_def Let_def split: option.splits)

text \<open>
  Claim C7. \<open>Build\<close> runs the external builder once, as the command \<^verbatim>\<open>kind\<close>. When an
  image name is configured, the arguments end with \<^verbatim>\<open>--image\<close> and that name; when none is
  configured and a build was requested, they end with \<^verbatim>\<open>--image\<close> and the default built
  image name; when none is configured and no build was requested, no image argument is
  added. \<open>Build\<close> returns an error exactly when the command fails, and it is the command's
  error.
\<close>

theorem Build_image_and_error:
  "(NodeImage d \<noteq> '''' \<longrightarrow>
      Build_args ext d = leading_args d @ [''--image'', NodeImage d])
   \<and> (NodeImage d = '''' \<and> ShouldBuild (build_commonOptions d) \<longrightarrow>
      Build_args ext d = leading_args d @ [''--image'', kindDefaultBuiltImageName ext])
   \<and> (NodeImage d = '''' \<and> \<not> ShouldBuild (build_commonOptions d) \<longrightarrow>
      Build_args ext d = leading_args d)
   \<and> hd (snd (Build ext d)) = ExecJUnit ''kind'' (Build_args ext d) (os_Environ ext)
   \<and> length (filter (\<lambda>e. case e of ExecJUnit c a v \<Rightarrow> True | StoreCommonBinaries r p \<Rightarrow> False)
               (snd (Build ext d))) = 1
   \<and> (fst (Build ext d) \<noteq> None
        \<longleftrightarrow> process_ExecJUnit ext ''kind'' (Build_args ext d) (os_Environ ext) \<noteq> None)
   \<and> fst (Build ext d) = process_ExecJUnit ext ''kind'' (Build_args ext d) (os_Environ ext)"
proof -
  have a: "length (filter (\<lambda>e. case e of ExecJUnit c a v \<Rightarrow> True | StoreCommonBinaries r p \<Rightarrow> False)
               (snd (Build ext d))) = 1"
    by (simp add: Build_effects)
  have b: "hd (snd (Build ext d)) = ExecJUnit ''kind'' (Build_args ext d) (os_Environ ext)"
    by (simp add: Build_effects)
  show ?thesis
    using a b Build_args_explicit [of d ext] Build_args_default [of d ext]
      Build_args_none [of d ext] Build_error [of ext d]
    by simp
qed

theorem Build_image_and_error_witness:
  "NodeImage (bd0\<lparr>NodeImage := ''my/node:v1''\<rparr>) \<noteq> ''''
   \<and> Build_args bext0 (bd0\<lparr>NodeImage := ''my/node:v1''\<rparr>)
       = [''build'', ''node-image'', ''--type'', ''docker'', ''--image'', ''my/node:v1'']
   \<and> fst (Build bext0 (bd0\<lparr>NodeImage := ''my/node:v1''\<rparr>)) = None
   \<and> NodeImage bd0 = '''' \<and> ShouldBuild (build_commonOptions bd0)
   \<and> Build_args bext0 bd0
       = [''build'', ''node-image'', ''--type'', ''docker'', ''--image'', ''kindest/node:latest'']
   \<and> \<not> ShouldBuild (build_commonOptions (bd0\<lparr>build_commonOptions := opts0\<lparr>ShouldBuild := False\<rparr>\<rparr>))
   \<and> Build_args bext0 (bd0\<lparr>build_commonOptions := opts0\<lparr>ShouldBuild := False\<rparr>\<rparr>)
       = [''build'', ''node-image'', ''--type'', ''docker'']
   \<and> fst (Build bext0 (bd0\<lparr>build_commonOptions := opts0\<lparr>ShouldBuild := False\<rparr>\<rparr>))
       = Some (Errorf ''exit status 1'')"
proof -
  let ?d1 = "bd0\<lparr>NodeImage := ''my/node:v1''\<rparr>"
  let ?d3 = "bd0\<lparr>build_commonOptions := opts0\<lparr>ShouldBuild := False\<rparr>\<rparr>"
  have l1: "leading_args ?d1 = [''build'', ''node-image'', ''--type'', ''docker'']"
    by (simp add: leading_args_def bd0_def)
  have l2: "leading_args bd0 = [''build'', ''node-image'', ''--type'', ''docker'']"
    by (simp add: leading_args_def bd0_def)
  have l3: "leading_args ?d3 = [''build'', ''node-image'', ''--type'', ''docker'']"
    by (simp add: leading_args_def bd0_def)
  have n1: "NodeImage ?d1 \<noteq> ''''"
    by simp
  have n2: "NodeImage bd0 = '''' \<and> ShouldBuild (build_commonOptions bd0)"
    by (simp add: bd0_def opts0_def)
  have n3: "NodeImage ?d3 = '''' \<and> \<not> ShouldBuild (build_commonOptions ?d3)"
    by (simp add: bd0_def)
  have a1: "Build_args bext0 ?d1
       = [''build'', ''node-image'', ''--type'', ''docker'', ''--image'', ''my/node:v1'']"
    using Build_image_and_error [of ?d1 bext0] n1 l1 by simp
  have a2: "Build_args bext0 bd0
       = [''build'', ''node-image'', ''--type'', ''docker'', ''--image'', ''kindest/node:latest'']"
    using Build_image_and_error [of bd0 bext0] n2 l2 by (simp add: bext0_def)
  have a3: "Build_args bext0 ?d3 = [''build'', ''node-image'', ''--type'', ''docker'']"
    using Build_image_and_error [of ?d3 bext0] n3 l3 by simp
  have f1: "fst (Build bext0 ?d1)
       = process_ExecJUnit bext0 ''kind'' (Build_args bext0 ?d1) (os_Environ bext0)"
    using Build_image_and_error [of ?d1 bext0] by blast
  have e1: "fst (Build bext0 ?d1) = None"
    unfolding f1 a1 by (simp add: bext0_def)
  have f3: "fst (Build bext0 ?d3)
       = process_ExecJUnit bext0 ''kind'' (Build_args bext0 ?d3) (os_Environ bext0)"
    using Build_image_and_error [of ?d3 bext0] by blast
  have e3: "fst (Build bext0 ?d3) = Some (Errorf ''exit status 1'')"
    unfolding f3 a3 by (simp add: bext0_def)
  from n1 n2 n3 a1 a2 a3 e1 e3 show ?thesis
    by simp
qed

section \<open>Properties of the leased-resource manager\<close>

subsection \<open>Logs in order\<close>

lemma observe_all_append:
  "observe_all p (xs @ ys) =
     (case observe_all p xs of None \<Rightarrow> None | Some q \<Rightarrow> observe_all q ys)"
  by (induction xs arbitrary: p) (auto split: option.splits)

lemma observe_all_Released: "observe_all Released xs = Some q \<Longrightarrow> xs = []"
  by (cases xs) simp_all

lemma observe_to_NoLease: "observe p e = Some NoLease \<Longrightarrow> p = NoLease"
  by (cases "(p, e)" rule: observe.cases) (auto split: if_splits)

lemma observe_all_to_NoLease: "observe_all p xs = Some NoLease \<Longrightarrow> p = NoLease"
proof (induction xs arbitrary: p)
  case Nil
  then show ?case by simp
next
  case (Cons e es)
  then obtain q where q: "observe p e = Some q" and r: "observe_all q es = Some NoLease"
    by (auto split: option.splits)
  from Cons.IH [OF r] q show ?case
    by (simp add: observe_to_NoLease)
qed

lemma observe_release: "observe p e = Some q \<Longrightarrow> is_release e \<Longrightarrow> q = Released"
  by (cases "(p, e)" rule: observe.cases) (auto split: if_splits)

lemma observe_all_no_release:
  "observe_all p xs = Some q \<Longrightarrow> q \<noteq> Released \<Longrightarrow> filter is_release xs = []"
proof (induction xs arbitrary: p)
  case Nil
  then show ?case by simp
next
  case (Cons e es)
  then obtain p' where p': "observe p e = Some p'" and r: "observe_all p' es = Some q"
    by (auto split: option.splits)
  have "\<not> is_release e"
  proof
    assume "is_release e"
    with p' have "p' = Released" by (rule observe_release)
    with r have "q = Released" using observe_all_Released by fastforce
    with Cons.prems(2) show False by simp
  qed
  with Cons.IH [OF r Cons.prems(2)] show ?case
    by simp
qed

lemma observe_all_not_acquired:
  "observe_all NoLease xs = Some NoLease \<Longrightarrow> filter is_acquired xs = []"
proof (induction xs)
  case Nil
  then show ?case by simp
next
  case (Cons e es)
  then obtain q where q: "observe NoLease e = Some q" and r: "observe_all q es = Some NoLease"
    by (auto split: option.splits)
  from r have "q = NoLease" by (rule observe_all_to_NoLease)
  with q have "\<not> is_acquired e"
    by (cases "(NoLease, e)" rule: observe.cases) auto
  with Cons.IH r \<open>q = NoLease\<close> show ?case
    by simp
qed

lemma observe_held:
  "observe p e = Some q \<Longrightarrow> q = HeldIdle l \<or> q = HeldBeating l \<Longrightarrow>
   p = HeldIdle l \<or> p = HeldBeating l \<or> (\<exists>t. e = EvAcquire t (Inr l))"
  by (cases "(p, e)" rule: observe.cases) (auto split: if_splits)

lemma observe_all_held:
  "observe_all p xs = Some q \<Longrightarrow> q = HeldIdle l \<or> q = HeldBeating l \<Longrightarrow>
   p = HeldIdle l \<or> p = HeldBeating l \<or> (\<exists>t. EvAcquire t (Inr l) \<in> set xs)"
proof (induction xs arbitrary: p)
  case Nil
  then show ?case by simp
next
  case (Cons e es)
  then obtain p' where p': "observe p e = Some p'" and r: "observe_all p' es = Some q"
    by (auto split: option.splits)
  from Cons.IH [OF r Cons.prems(2)]
  consider "p' = HeldIdle l \<or> p' = HeldBeating l" | t where "EvAcquire t (Inr l) \<in> set es"
    by blast
  then show ?case
  proof cases
    case 1
    from observe_held [OF p' 1] show ?thesis by auto
  next
    case 2
    then show ?thesis by auto
  qed
qed

lemma observe_all_acquired:
  "observe_all NoLease xs = Some q \<Longrightarrow> q = HeldIdle l \<or> q = HeldBeating l \<Longrightarrow>
   \<exists>t. EvAcquire t (Inr l) \<in> set xs"
  using observe_all_held [of NoLease xs q l] by simp

lemma observe_all_split:
  assumes "observe_all p (xs @ e # ys) = Some r"
  obtains q q' where "observe_all p xs = Some q" and "observe q e = Some q'"
    and "observe_all q' ys = Some r"
  using assms by (auto simp: observe_all_append split: option.splits)

lemma observe_heartbeat: "observe q (EvHeartbeat l r) = Some q' \<Longrightarrow> q = HeldBeating l"
  by (cases "(q, EvHeartbeat l r)" rule: observe.cases) (auto split: if_splits)

lemma observe_release_from:
  "observe q (EvRelease l r) = Some q' \<Longrightarrow> q = HeldIdle l \<and> q' = Released"
  by (cases "(q, EvRelease l r)" rule: observe.cases) (auto split: if_splits)

text \<open>Where a heartbeat stands in a log that is in order.\<close>

lemma heartbeat_position:
  assumes "observe_all NoLease (xs @ EvHeartbeat l r # ys) = Some p"
  shows "observe_all NoLease xs = Some (HeldBeating l)
       \<and> (\<exists>t. EvAcquire t (Inr l) \<in> set xs) \<and> filter is_release xs = []"
proof -
  from assms obtain q q' where q: "observe_all NoLease xs = Some q"
    and o: "observe q (EvHeartbeat l r) = Some q'"
    by (rule observe_all_split)
  from o have b: "q = HeldBeating l" by (rule observe_heartbeat)
  from q b have "\<exists>t. EvAcquire t (Inr l) \<in> set xs"
    using observe_all_acquired by blast
  moreover from q b have "filter is_release xs = []"
    using observe_all_no_release by blast
  ultimately show ?thesis using q b by simp
qed

lemma release_position:
  assumes "observe_all NoLease (xs @ EvRelease l r # ys) = Some p"
  shows "observe_all NoLease xs = Some (HeldIdle l) \<and> ys = []"
proof -
  from assms obtain q q' where q: "observe_all NoLease xs = Some q"
    and o: "observe q (EvRelease l r) = Some q'" and y: "observe_all q' ys = Some p"
    by (rule observe_all_split)
  from o have "q = HeldIdle l" and "q' = Released"
    using observe_release_from by blast+
  with q y show ?thesis
    using observe_all_Released by blast
qed

lemma in_order_init: "in_order (rm_init kind d)"
  by (simp add: in_order_def rm_init_def)

lemma in_orderE:
  assumes "in_order s"
  obtains p where "observe_all NoLease (rm_log s) = Some p" and "agrees s p"
  using assms by (auto simp: in_order_def split: option.splits)

lemma in_order_resolve:
  assumes "in_order s"
  shows "in_order (snd (rm_resolve pool s))"
proof -
  from assms obtain p where p: "observe_all NoLease (rm_log s) = Some p" and a: "agrees s p"
    by (rule in_orderE)
  show ?thesis
    using p a
    by (cases p)
      (auto simp: in_order_def rm_resolve_def observe_all_append Let_def split: sum.splits)
qed

lemma in_order_tick:
  assumes "in_order s"
  shows "in_order (rm_tick pool s)"
proof -
  from assms obtain p where p: "observe_all NoLease (rm_log s) = Some p" and a: "agrees s p"
    by (rule in_orderE)
  show ?thesis
    using p a
    by (cases p)
      (auto simp: in_order_def rm_tick_def observe_all_append Let_def split: option.splits)
qed

lemma in_order_teardown:
  assumes "in_order s"
  shows "in_order (rm_teardown pool s)"
proof -
  from assms obtain p where p: "observe_all NoLease (rm_log s) = Some p" and a: "agrees s p"
    by (rule in_orderE)
  show ?thesis
    using p a
    by (cases p)
      (auto simp: in_order_def rm_teardown_def rm_release_def rm_stop_heartbeat_def
         observe_all_append split: option.splits)
qed

lemma in_order_step: "in_order s \<Longrightarrow> in_order (rm_step pool a s)"
  by (cases a) (simp_all add: in_order_resolve in_order_tick in_order_teardown)

lemma in_order_run: "in_order s \<Longrightarrow> in_order (rm_run pool acts s)"
  by (induction acts arbitrary: s) (simp_all add: in_order_step)

lemma rm_run_append: "rm_run pool (xs @ ys) s = rm_run pool ys (rm_run pool xs s)"
  by (induction xs arbitrary: s) simp_all

text \<open>Once the project is resolved and no lease is recorded, nothing happens any more.\<close>

lemma rm_step_settled:
  assumes "rm_lease s = None" and "\<not> rm_heartbeatRunning s" and "rm_resolvedProject s \<noteq> None"
  shows "rm_step pool a s = s"
  using assms
  by (cases a)
    (simp_all add: rm_resolve_def rm_tick_def rm_teardown_def rm_release_def
       rm_stop_heartbeat_def)

lemma rm_run_settled:
  assumes "rm_lease s = None" and "\<not> rm_heartbeatRunning s" and "rm_resolvedProject s \<noteq> None"
  shows "rm_run pool acts s = s"
  using assms by (induction acts) (simp_all add: rm_step_settled)

lemma rm_teardown_settles:
  assumes "rm_resolvedProject s \<noteq> None"
  shows "rm_lease (rm_teardown pool s) = None \<and> \<not> rm_heartbeatRunning (rm_teardown pool s)
       \<and> rm_resolvedProject (rm_teardown pool s) \<noteq> None"
  using assms
  by (simp add: rm_teardown_def rm_release_def rm_stop_heartbeat_def split: option.splits)

lemma in_order_acquired_resolved:
  assumes "in_order s" and "filter is_acquired (rm_log s) \<noteq> []"
  shows "rm_resolvedProject s \<noteq> None"
proof -
  from assms(1) obtain p where p: "observe_all NoLease (rm_log s) = Some p" and a: "agrees s p"
    by (rule in_orderE)
  from p assms(2) have "p \<noteq> NoLease"
    using observe_all_not_acquired by blast
  with a show ?thesis
    by (cases p) simp_all
qed

lemma in_order_held:
  assumes "in_order s" and "rm_lease s = Some l"
  shows "filter is_release (rm_log s) = [] \<and> rm_resolvedProject s \<noteq> None"
proof -
  from assms(1) obtain p where p: "observe_all NoLease (rm_log s) = Some p" and a: "agrees s p"
    by (rule in_orderE)
  from a assms(2) have "p \<noteq> Released \<and> rm_resolvedProject s \<noteq> None"
    by (cases p) simp_all
  with p show ?thesis
    using observe_all_no_release by blast
qed

lemma rm_teardown_held:
  assumes "rm_lease s = Some l"
  shows "filter is_release (rm_log (rm_teardown pool s))
           = filter is_release (rm_log s) @ [EvRelease l (pool_Release pool l)]"
  using assms by (simp add: rm_teardown_def rm_release_def rm_stop_heartbeat_def)

lemma rm_step_keeps_lease:
  assumes "rm_lease s = Some l" and "rm_resolvedProject s \<noteq> None" and "a \<noteq> DoTeardown"
  shows "rm_lease (rm_step pool a s) = Some l"
  using assms by (cases a) (simp_all add: rm_resolve_def rm_tick_def Let_def)

lemma release_once_from:
  assumes "in_order s" and "rm_lease s = Some l" and "DoTeardown \<in> set acts"
  shows "filter is_release (rm_log (rm_run pool acts s)) = [EvRelease l (pool_Release pool l)]"
  using assms
proof (induction acts arbitrary: s)
  case Nil
  then show ?case by simp
next
  case (Cons a as)
  from in_order_held [OF Cons.prems(1,2)]
  have nr: "filter is_release (rm_log s) = []" and res: "rm_resolvedProject s \<noteq> None"
    by simp_all
  show ?case
  proof (cases "a = DoTeardown")
    case True
    from rm_teardown_settles [OF res, of pool]
    have "rm_run pool as (rm_teardown pool s) = rm_teardown pool s"
      by (simp add: rm_run_settled)
    with True nr rm_teardown_held [OF Cons.prems(2), of pool] show ?thesis
      by simp
  next
    case False
    with Cons.prems(3) have t: "DoTeardown \<in> set as" by auto
    have o: "in_order (rm_step pool a s)"
      using Cons.prems(1) by (rule in_order_step)
    have l: "rm_lease (rm_step pool a s) = Some l"
      using Cons.prems(2) res False by (rule rm_step_keeps_lease)
    from Cons.IH [OF o l t] show ?thesis
      by simp
  qed
qed

lemma rm_teardown_idem: "rm_teardown pool (rm_teardown pool s) = rm_teardown pool s"
  by (simp add: rm_teardown_def rm_release_def rm_stop_heartbeat_def split: option.splits)

lemma rm_teardown_log:
  assumes "rm_lease s = Some l"
  shows "rm_log (rm_teardown pool s)
           = rm_log s @ (if rm_heartbeatRunning s then [EvLoopStop] else [])
               @ [EvRelease l (pool_Release pool l)]"
  using assms by (simp add: rm_teardown_def rm_release_def rm_stop_heartbeat_def)

lemma rm_teardown_funpow: "(rm_teardown pool ^^ Suc n) s = rm_teardown pool s"
  by (induction n) (simp_all add: rm_teardown_idem)

lemma rm_teardown_heartbeats:
  "filter is_heartbeat (rm_log (rm_teardown pool s)) = filter is_heartbeat (rm_log s)"
  by (simp add: rm_teardown_def rm_release_def rm_stop_heartbeat_def split: option.splits)

lemma rm_init_d_pool:
  "rm_init kind d_pool =
     \<lparr> rm_poolKind = kind, rm_explicitProject = '''', rm_acquireTimeout = 300,
       rm_heartbeatInterval = 300, rm_lease = None, rm_resolvedProject = None,
       rm_heartbeatRunning = False, rm_leaseLost = False, rm_log = [] \<rparr>"
  by (simp add: rm_init_def d_pool_def new_struct_def)

lemma rm_init_d_explicit:
  "rm_init kind d_explicit =
     \<lparr> rm_poolKind = kind, rm_explicitProject = ''my-proj'', rm_acquireTimeout = 300,
       rm_heartbeatInterval = 300, rm_lease = None, rm_resolvedProject = None,
       rm_heartbeatRunning = False, rm_leaseLost = False, rm_log = [] \<rparr>"
  by (simp add: rm_init_def d_explicit_def new_struct_def)

lemmas rm_eval =
  rm_resolve_def rm_tick_def rm_teardown_def rm_release_def rm_stop_heartbeat_def
  pool0_def Let_def

lemma run_pool_before:
  "rm_run pool0 [DoTick, DoResolve, DoTick, DoTick] (rm_init ''gce-project'' d_pool) =
     \<lparr> rm_poolKind = ''gce-project'', rm_explicitProject = '''', rm_acquireTimeout = 300,
       rm_heartbeatInterval = 300, rm_lease = Some lease0,
       rm_resolvedProject = Some ''k8s-boskos-07'',
       rm_heartbeatRunning = True, rm_leaseLost = False,
       rm_log = [EvAcquire 300 (Inr lease0), EvLoopStart,
                 EvHeartbeat lease0 HeartbeatOk, EvHeartbeat lease0 HeartbeatOk] \<rparr>"
  by (simp add: rm_init_d_pool rm_eval) (simp add: lease0_def)

text \<open>
  Claim C1. In every run in which a lease is held and Teardown is then called one or
  more times, with anything else happening in between and afterwards, the log holds
  exactly one Release call, for that lease. The first Teardown stops a running loop and
  then releases; calling Teardown again, any number of times, changes nothing.
\<close>

theorem teardown_releases_once:
  assumes "rm_lease (rm_run pool pre (rm_init kind d)) = Some l"
    and "DoTeardown \<in> set post"
  shows "filter is_release (rm_log (rm_run pool (pre @ post) (rm_init kind d)))
           = [EvRelease l (pool_Release pool l)]
       \<and> rm_log (rm_teardown pool (rm_run pool pre (rm_init kind d)))
           = rm_log (rm_run pool pre (rm_init kind d))
             @ (if rm_heartbeatRunning (rm_run pool pre (rm_init kind d)) then [EvLoopStop] else [])
             @ [EvRelease l (pool_Release pool l)]
       \<and> (rm_teardown pool ^^ Suc n) s = rm_teardown pool s"
proof -
  have o: "in_order (rm_run pool pre (rm_init kind d))"
    by (simp add: in_order_run in_order_init)
  from release_once_from [OF o assms]
  have "filter is_release (rm_log (rm_run pool (pre @ post) (rm_init kind d)))
           = [EvRelease l (pool_Release pool l)]"
    by (simp add: rm_run_append)
  then show ?thesis
    using rm_teardown_log [OF assms(1)] by (simp only: rm_teardown_funpow simp_thms)
qed

theorem teardown_releases_once_witness:
  "rm_lease (rm_run pool0 [DoTick, DoResolve, DoTick, DoTick] (rm_init ''gce-project'' d_pool))
     = Some lease0
   \<and> DoTeardown \<in> set [DoTeardown, DoTick, DoTeardown, DoResolve, DoTeardown]
   \<and> filter is_release (rm_log (rm_run pool0
        ([DoTick, DoResolve, DoTick, DoTick] @ [DoTeardown, DoTick, DoTeardown, DoResolve, DoTeardown])
        (rm_init ''gce-project'' d_pool)))
       = [EvRelease lease0 ReleaseOk]
   \<and> rm_log (rm_teardown pool0
        (rm_run pool0 [DoTick, DoResolve, DoTick, DoTick] (rm_init ''gce-project'' d_pool)))
       = [EvAcquire 300 (Inr lease0), EvLoopStart, EvHeartbeat lease0 HeartbeatOk,
          EvHeartbeat lease0 HeartbeatOk, EvLoopStop, EvRelease lease0 ReleaseOk]"
proof -
  let ?pre = "[DoTick, DoResolve, DoTick, DoTick]"
  let ?post = "[DoTeardown, DoTick, DoTeardown, DoResolve, DoTeardown]"
  have h: "rm_lease (rm_run pool0 ?pre (rm_init ''gce-project'' d_pool)) = Some lease0"
    by (simp only: run_pool_before) simp
  have t: "DoTeardown \<in> set ?post"
    by simp
  have r: "pool_Release pool0 lease0 = ReleaseOk"
    by (simp add: pool0_def)
  from teardown_releases_once [OF h t] h t show ?thesis
    by (simp only: r run_pool_before) simp
qed

lemma explicit_state_init: "GCPProject d \<noteq> '''' \<Longrightarrow> explicit_state (GCPProject d) (rm_init kind d)"
  by (simp add: explicit_state_def rm_init_def)

lemma explicit_state_step:
  "explicit_state p s \<Longrightarrow> explicit_state p (rm_step pool a s)"
  by (cases a)
    (auto simp: explicit_state_def rm_resolve_def rm_tick_def rm_teardown_def rm_release_def
       rm_stop_heartbeat_def)

lemma explicit_state_run:
  "explicit_state p s \<Longrightarrow> explicit_state p (rm_run pool acts s)"
  by (induction acts arbitrary: s) (simp_all add: explicit_state_step)

lemma explicit_resolved_step:
  "explicit_state p s \<Longrightarrow> rm_resolvedProject s = Some p \<or> a = DoResolve \<Longrightarrow>
   rm_resolvedProject (rm_step pool a s) = Some p"
  by (cases a)
    (auto simp: explicit_state_def rm_resolve_def rm_tick_def rm_teardown_def rm_release_def
       rm_stop_heartbeat_def)

lemma explicit_resolved_run:
  "explicit_state p s \<Longrightarrow> rm_resolvedProject s = Some p \<or> DoResolve \<in> set acts \<Longrightarrow>
   rm_resolvedProject (rm_run pool acts s) = Some p"
proof (induction acts arbitrary: s)
  case Nil
  then show ?case by simp
next
  case (Cons a as)
  have e: "explicit_state p (rm_step pool a s)"
    using Cons.prems(1) by (rule explicit_state_step)
  show ?case
  proof (cases "rm_resolvedProject s = Some p \<or> a = DoResolve")
    case True
    with Cons.prems(1) have "rm_resolvedProject (rm_step pool a s) = Some p"
      by (rule explicit_resolved_step)
    with Cons.IH [OF e] show ?thesis by simp
  next
    case False
    with Cons.prems(2) have "DoResolve \<in> set as" by auto
    with Cons.IH [OF e] show ?thesis by simp
  qed
qed

text \<open>
  Claim C5. In every run with an explicit project configured (a non-empty
  \<open>GCPProject\<close>), no call to the pool is ever made: the log stays empty and no lease is
  recorded, whatever is asked of the manager. Asking for the project succeeds with the
  configured value, which is the resolved project of every run that asks for it.
\<close>

theorem explicit_project_no_pool_calls:
  assumes "GCPProject d \<noteq> ''''"
  shows "rm_log (rm_run pool acts (rm_init kind d)) = []
       \<and> rm_lease (rm_run pool acts (rm_init kind d)) = None
       \<and> fst (rm_resolve pool (rm_init kind d)) = None
       \<and> rm_resolvedProject (snd (rm_resolve pool (rm_init kind d))) = Some (GCPProject d)
       \<and> (DoResolve \<in> set acts \<longrightarrow>
            rm_resolvedProject (rm_run pool acts (rm_init kind d)) = Some (GCPProject d))"
proof -
  have i: "explicit_state (GCPProject d) (rm_init kind d)"
    using assms by (rule explicit_state_init)
  then have r: "explicit_state (GCPProject d) (rm_run pool acts (rm_init kind d))"
    by (rule explicit_state_run)
  have a: "fst (rm_resolve pool (rm_init kind d)) = None"
    using assms by (simp add: rm_resolve_def rm_init_def)
  have b: "rm_resolvedProject (snd (rm_resolve pool (rm_init kind d))) = Some (GCPProject d)"
    using assms by (simp add: rm_resolve_def rm_init_def)
  have c: "DoResolve \<in> set acts \<longrightarrow>
            rm_resolvedProject (rm_run pool acts (rm_init kind d)) = Some (GCPProject d)"
    using explicit_resolved_run [OF i] by blast
  from r a b c show ?thesis
    by (simp add: explicit_state_def)
qed

theorem explicit_project_no_pool_calls_witness:
  "GCPProject d_explicit \<noteq> ''''
   \<and> DoResolve \<in> set [DoTick, DoResolve, DoTick, DoTeardown, DoTick]
   \<and> rm_run pool0 [DoTick, DoResolve, DoTick, DoTeardown, DoTick] (rm_init ''gce-project'' d_explicit)
       = \<lparr> rm_poolKind = ''gce-project'', rm_explicitProject = ''my-proj'',
           rm_acquireTimeout = 300, rm_heartbeatInterval = 300, rm_lease = None,
           rm_resolvedProject = Some ''my-proj'', rm_heartbeatRunning = False,
           rm_leaseLost = False, rm_log = [] \<rparr>
   \<and> rm_log (rm_run pool0 [DoTick, DoResolve, DoTick, DoTeardown, DoTick]
        (rm_init ''gce-project'' d_explicit)) = []
   \<and> rm_resolvedProject (rm_run pool0 [DoTick, DoResolve, DoTick, DoTeardown, DoTick]
        (rm_init ''gce-project'' d_explicit)) = Some (GCPProject d_explicit)"
proof -
  let ?acts = "[DoTick, DoResolve, DoTick, DoTeardown, DoTick]"
  have g: "GCPProject d_explicit \<noteq> ''''"
    by (simp add: d_explicit_def)
  have m: "DoResolve \<in> set ?acts"
    by simp
  have e: "rm_run pool0 ?acts (rm_init ''gce-project'' d_explicit)
       = \<lparr> rm_poolKind = ''gce-project'', rm_explicitProject = ''my-proj'',
           rm_acquireTimeout = 300, rm_heartbeatInterval = 300, rm_lease = None,
           rm_resolvedProject = Some ''my-proj'', rm_heartbeatRunning = False,
           rm_leaseLost = False, rm_log = [] \<rparr>"
    by (simp add: rm_init_d_explicit rm_eval)
  from explicit_project_no_pool_calls [OF g, of pool0 ?acts "''gce-project''"] m
  have "rm_log (rm_run pool0 ?acts (rm_init ''gce-project'' d_explicit)) = []
      \<and> rm_resolvedProject (rm_run pool0 ?acts (rm_init ''gce-project'' d_explicit))
          = Some (GCPProject d_explicit)"
    by blast
  with g m e show ?thesis
    by (simp only: simp_thms)
qed

text \<open>
  Claim C6. In every run the events of the log are in order: a heartbeat is sent only
  after an Acquire that succeeded, for the lease it returned, while the loop is running
  and before any Release; Release is issued only when the loop has been stopped, and
  nothing is sent after it. After a Teardown that follows a successful Acquire has
  returned, the manager's state, and with it the log, never changes again, so no
  heartbeat is sent after it.
\<close>

theorem heartbeats_between_acquire_and_release:
  "observe_all NoLease (rm_log (rm_run pool acts (rm_init kind d))) \<noteq> None
   \<and> (\<forall>xs l r ys. rm_log (rm_run pool acts (rm_init kind d)) = xs @ EvHeartbeat l r # ys \<longrightarrow>
        (\<exists>t. EvAcquire t (Inr l) \<in> set xs)
        \<and> observe_all NoLease xs = Some (HeldBeating l)
        \<and> filter is_release xs = [])
   \<and> (\<forall>xs l r ys. rm_log (rm_run pool acts (rm_init kind d)) = xs @ EvRelease l r # ys \<longrightarrow>
        observe_all NoLease xs = Some (HeldIdle l) \<and> ys = [])
   \<and> (\<forall>pre post. acts = pre @ DoTeardown # post
          \<and> filter is_acquired (rm_log (rm_run pool pre (rm_init kind d))) \<noteq> [] \<longrightarrow>
        rm_run pool acts (rm_init kind d) = rm_teardown pool (rm_run pool pre (rm_init kind d))
        \<and> filter is_heartbeat (rm_log (rm_run pool acts (rm_init kind d)))
            = filter is_heartbeat (rm_log (rm_run pool pre (rm_init kind d)))
        \<and> \<not> rm_heartbeatRunning (rm_run pool acts (rm_init kind d)))"
proof -
  let ?s = "rm_run pool acts (rm_init kind d)"
  have "in_order ?s"
    by (simp add: in_order_run in_order_init)
  then obtain p where p: "observe_all NoLease (rm_log ?s) = Some p"
    by (rule in_orderE)
  then have a: "observe_all NoLease (rm_log ?s) \<noteq> None"
    by simp
  have b: "(\<exists>t. EvAcquire t (Inr l) \<in> set xs)
        \<and> observe_all NoLease xs = Some (HeldBeating l)
        \<and> filter is_release xs = []"
    if "rm_log ?s = xs @ EvHeartbeat l r # ys" for xs l r ys
    using heartbeat_position [of xs l r ys p] p that by simp
  have c: "observe_all NoLease xs = Some (HeldIdle l) \<and> ys = []"
    if "rm_log ?s = xs @ EvRelease l r # ys" for xs l r ys
    using release_position [of xs l r ys p] p that by simp
  have e: "?s = rm_teardown pool (rm_run pool pre (rm_init kind d))
        \<and> filter is_heartbeat (rm_log ?s)
            = filter is_heartbeat (rm_log (rm_run pool pre (rm_init kind d)))
        \<and> \<not> rm_heartbeatRunning ?s"
    if acts: "acts = pre @ DoTeardown # post"
      and acq: "filter is_acquired (rm_log (rm_run pool pre (rm_init kind d))) \<noteq> []"
    for pre post
  proof -
    let ?m = "rm_run pool pre (rm_init kind d)"
    have "in_order ?m"
      by (simp add: in_order_run in_order_init)
    then have res: "rm_resolvedProject ?m \<noteq> None"
      using acq by (rule in_order_acquired_resolved)
    note st = rm_teardown_settles [OF res, of pool]
    then have "rm_run pool post (rm_teardown pool ?m) = rm_teardown pool ?m"
      by (simp add: rm_run_settled)
    then have "?s = rm_teardown pool ?m"
      by (simp add: acts rm_run_append)
    with st show ?thesis
      by (simp add: rm_teardown_heartbeats)
  qed
  from a b c e show ?thesis
    by blast
qed


theorem heartbeats_between_acquire_and_release_witness:
  "rm_log (rm_run pool0 ([DoTick, DoResolve, DoTick, DoTick] @ DoTeardown # [DoTick, DoTeardown])
       (rm_init ''gce-project'' d_pool))
     = [EvAcquire 300 (Inr lease0), EvLoopStart] @ EvHeartbeat lease0 HeartbeatOk
         # [EvHeartbeat lease0 HeartbeatOk, EvLoopStop, EvRelease lease0 ReleaseOk]
   \<and> observe_all NoLease [EvAcquire 300 (Inr lease0), EvLoopStart] = Some (HeldBeating lease0)
   \<and> filter is_acquired (rm_log (rm_run pool0 [DoTick, DoResolve, DoTick, DoTick]
         (rm_init ''gce-project'' d_pool))) \<noteq> []
   \<and> filter is_heartbeat (rm_log (rm_run pool0
         ([DoTick, DoResolve, DoTick, DoTick] @ DoTeardown # [DoTick, DoTeardown])
         (rm_init ''gce-project'' d_pool)))
       = [EvHeartbeat lease0 HeartbeatOk, EvHeartbeat lease0 HeartbeatOk]
   \<and> \<not> rm_heartbeatRunning (rm_run pool0
         ([DoTick, DoResolve, DoTick, DoTick] @ DoTeardown # [DoTick, DoTeardown])
         (rm_init ''gce-project'' d_pool))"
proof -
  let ?pre = "[DoTick, DoResolve, DoTick, DoTick]"
  let ?post = "[DoTick, DoTeardown]"
  let ?i = "rm_init ''gce-project'' d_pool"
  note T = heartbeats_between_acquire_and_release
    [of pool0 "?pre @ DoTeardown # ?post" "''gce-project''" d_pool]
  have m: "rm_run pool0 (?pre @ DoTeardown # ?post) ?i
      = rm_run pool0 (DoTeardown # ?post) (rm_run pool0 ?pre ?i)"
    by (rule rm_run_append)
  have l: "rm_log (rm_run pool0 (?pre @ DoTeardown # ?post) ?i)
     = [EvAcquire 300 (Inr lease0), EvLoopStart] @ EvHeartbeat lease0 HeartbeatOk
         # [EvHeartbeat lease0 HeartbeatOk, EvLoopStop, EvRelease lease0 ReleaseOk]"
    unfolding m run_pool_before by (simp add: rm_eval)
  have q: "filter is_acquired (rm_log (rm_run pool0 ?pre ?i)) \<noteq> []"
    unfolding run_pool_before by simp
  note H = T [THEN conjunct2, THEN conjunct1, rule_format, OF l]
  note o = H [THEN conjunct2, THEN conjunct1]
  note E = T [THEN conjunct2, THEN conjunct2, THEN conjunct2, rule_format, OF conjI [OF refl q]]
  have h1: "filter is_heartbeat (rm_log (rm_run pool0 (?pre @ DoTeardown # ?post) ?i))
            = [EvHeartbeat lease0 HeartbeatOk, EvHeartbeat lease0 HeartbeatOk]"
    unfolding E [THEN conjunct2, THEN conjunct1] run_pool_before by simp
  note h2 = E [THEN conjunct2, THEN conjunct2]
  from l o q h1 h2 show ?thesis
    by (intro conjI)
qed

end
